theory Spec2Isabelle
  imports Main "HOL-Library.Word" "HOL-Library.Signed_Division"
begin

section \<open>The load generator: one reservation attempt\<close>

text \<open>
  The client's \<^verbatim>\<open>error\<close> values: what \<^verbatim>\<open>client.Post\<close> returns when no response
  arrives, and the error \<^verbatim>\<open>fmt.Errorf("user %d: no request succeeded", userID)\<close>, kept
  as the user id it is formatted from.
\<close>

datatype client_error = TransportError string | NoRequestSucceeded int

text \<open>\<^verbatim>\<open>time.Duration\<close> is an \<^verbatim>\<open>int64\<close> of nanoseconds, and the counters of \<^verbatim>\<open>main\<close>
  are 64-bit \<^verbatim>\<open>int\<close>s: both are words, so sums wrap as they do in Go.\<close>

type_synonym duration = "64 word"

record Result =
  StatusCode :: int
  Duration :: duration
  Err :: "client_error option"

record ReserveRequest =
  UserID :: int
  SeatID :: int

text \<open>
  What the network does with one \<^verbatim>\<open>client.Post\<close> is given from outside: the error or the
  status code of the response, and the time \<^verbatim>\<open>time.Since(start)\<close> measures around the
  call.
\<close>

datatype post_reply = PostError string | PostResponse int

record round_trip =
  reply :: post_reply
  elapsed :: duration

definition tryReserve :: "(ReserveRequest \<Rightarrow> round_trip) \<Rightarrow> ReserveRequest \<Rightarrow> Result" where
  "tryReserve post req =
     (case reply (post req) of
        PostError e \<Rightarrow>
          \<lparr>StatusCode = 0, Duration = elapsed (post req), Err = Some (TransportError e)\<rparr>
      | PostResponse c \<Rightarrow>
          \<lparr>StatusCode = c, Duration = elapsed (post req), Err = None\<rparr>)"

section \<open>The load generator: \<^verbatim>\<open>simulateClient\<close>\<close>

text \<open>
  One turn of the outer \<^verbatim>\<open>for\<close> loop starts with \<^verbatim>\<open>fetchAvailableSeats\<close>, which either
  fails or gives a list of seats. \<^verbatim>\<open>rand.Shuffle\<close> then permutes the list; \<open>Fetched\<close>
  carries the list as permuted, and \<open>net i\<close>, the behaviour of the network at the
  \<open>i\<close>-th attempt of this turn. The sleep between attempts is left out.
\<close>

datatype cycle =
  FetchError string
| Fetched "int list" "nat \<Rightarrow> ReserveRequest \<Rightarrow> round_trip"

text \<open>The attempts on the first three seats:
  \<^verbatim>\<open>for i := 0; i < len(seats) && i < 3; i++ { ... }\<close>, entered at \<open>i\<close>.\<close>

function attempt_loop ::
  "int \<Rightarrow> int list \<Rightarrow> (nat \<Rightarrow> ReserveRequest \<Rightarrow> round_trip) \<Rightarrow> nat \<Rightarrow> Result list \<Rightarrow> Result list"
where
  "attempt_loop userID seats net i currentResults =
     (if i < length seats \<and> i < 3 then
        (if Err (tryReserve (net i) \<lparr>UserID = userID, SeatID = seats ! i\<rparr>) \<noteq> None \<or>
            Duration (tryReserve (net i) \<lparr>UserID = userID, SeatID = seats ! i\<rparr>) = 0
         then attempt_loop userID seats net (i + 1) currentResults
         else if StatusCode (tryReserve (net i) \<lparr>UserID = userID, SeatID = seats ! i\<rparr>) = 200
         then currentResults @ [tryReserve (net i) \<lparr>UserID = userID, SeatID = seats ! i\<rparr>]
         else attempt_loop userID seats net (i + 1)
                (currentResults @ [tryReserve (net i) \<lparr>UserID = userID, SeatID = seats ! i\<rparr>]))
      else currentResults)"
  by pat_completeness auto
termination
  by (relation "measure (\<lambda>(userID, seats, net, i, currentResults). 3 - i)") auto

declare attempt_loop.simps [simp del]

text \<open>
  The outer loop over the turns the environment provides. A failed fetch goes to the next
  turn; an empty list ends the loop. When the turns run out before an empty list has
  come, the simulator is still in its loop: the result is \<open>None\<close>.
\<close>

fun client_loop :: "int \<Rightarrow> cycle list \<Rightarrow> Result list \<Rightarrow> Result list option" where
  "client_loop userID [] currentResults = None"
| "client_loop userID (FetchError e # cycles) currentResults =
     client_loop userID cycles currentResults"
| "client_loop userID (Fetched seats net # cycles) currentResults =
     (if length seats = 0 then Some currentResults
      else client_loop userID cycles (attempt_loop userID seats net 0 currentResults))"

definition no_request_succeeded :: "int \<Rightarrow> Result" where
  "no_request_succeeded userID =
     \<lparr>StatusCode = 0, Duration = 0, Err = Some (NoRequestSucceeded userID)\<rparr>"

text \<open>The list the simulator sends on the \<^verbatim>\<open>results\<close> channel.\<close>

definition simulateClient :: "int \<Rightarrow> cycle list \<Rightarrow> Result list option" where
  "simulateClient userID cycles =
     (case client_loop userID cycles [] of
        None \<Rightarrow> None
      | Some currentResults \<Rightarrow>
          Some (if length currentResults = 0
                then currentResults @ [no_request_succeeded userID]
                else currentResults))"

subsection \<open>The attempts a simulator makes\<close>

text \<open>
  The source keeps no record of the attempts it drops. To speak about them, the results
  of all the \<^verbatim>\<open>tryReserve\<close> calls of the loops above are listed here, in the order of the
  calls; \<open>recorded\<close> is the test under which the loop appends one to \<^verbatim>\<open>currentResults\<close>.
\<close>

definition recorded :: "Result \<Rightarrow> bool" where
  "recorded result = (\<not> (Err result \<noteq> None \<or> Duration result = 0))"

function attempts_of_cycle ::
  "int \<Rightarrow> int list \<Rightarrow> (nat \<Rightarrow> ReserveRequest \<Rightarrow> round_trip) \<Rightarrow> nat \<Rightarrow> Result list"
where
  "attempts_of_cycle userID seats net i =
     (if i < length seats \<and> i < 3 then
        (if recorded (tryReserve (net i) \<lparr>UserID = userID, SeatID = seats ! i\<rparr>) \<and>
            StatusCode (tryReserve (net i) \<lparr>UserID = userID, SeatID = seats ! i\<rparr>) = 200
         then [tryReserve (net i) \<lparr>UserID = userID, SeatID = seats ! i\<rparr>]
         else tryReserve (net i) \<lparr>UserID = userID, SeatID = seats ! i\<rparr> #
                attempts_of_cycle userID seats net (i + 1))
      else [])"
  by pat_completeness auto
termination
  by (relation "measure (\<lambda>(userID, seats, net, i). 3 - i)") auto

declare attempts_of_cycle.simps [simp del]

fun attempts_made :: "int \<Rightarrow> cycle list \<Rightarrow> Result list" where
  "attempts_made userID [] = []"
| "attempts_made userID (FetchError e # cycles) = attempts_made userID cycles"
| "attempts_made userID (Fetched seats net # cycles) =
     (if length seats = 0 then []
      else attempts_of_cycle userID seats net 0 @ attempts_made userID cycles)"

section \<open>The load generator: the aggregation in \<^verbatim>\<open>main\<close>\<close>

record totals =
  successCount :: "64 word"
  successTotalRTT :: duration
  failCount :: "64 word"
  failTotalRTT :: duration
  requestFailCount :: "64 word"
  allResults :: "Result list"

definition no_totals :: totals where
  "no_totals =
     \<lparr>successCount = 0, successTotalRTT = 0, failCount = 0, failTotalRTT = 0,
      requestFailCount = 0, allResults = []\<rparr>"

text \<open>The body of the inner \<^verbatim>\<open>for _, r := range rr\<close>.\<close>

definition count_result :: "totals \<Rightarrow> Result \<Rightarrow> totals" where
  "count_result t r =
     (if Duration r = 0 then
        t\<lparr>allResults := allResults t @ [r], requestFailCount := requestFailCount t + 1\<rparr>
      else if StatusCode r = 200 then
        t\<lparr>allResults := allResults t @ [r], successCount := successCount t + 1,
          successTotalRTT := successTotalRTT t + Duration r\<rparr>
      else
        t\<lparr>allResults := allResults t @ [r], failCount := failCount t + 1,
          failTotalRTT := failTotalRTT t + Duration r\<rparr>)"

text \<open>\<^verbatim>\<open>for rr := range results { for _, r := range rr { ... } }\<close> over what the channel
  holds once it is closed. This is all \<^verbatim>\<open>main\<close> computes: the code that divided the
  totals by the counts and printed a report stands in a comment.\<close>

definition aggregate :: "Result list list \<Rightarrow> totals" where
  "aggregate results = foldl (\<lambda>t rr. foldl count_result t rr) no_totals results"

text \<open>
  \<^verbatim>\<open>main\<close> starts the simulators \<open>0..<clients\<close> (5000 in the source) with the user ids
  \<open>1000 + i\<close> and waits for all of them; simulator \<open>i\<close> meets the turns \<open>turns i\<close>.
  Each sends its list once, and the channel has room for all, so after the wait the
  channel holds the lists in the order \<open>arrival\<close> in which the simulators sent them. When
  a simulator never leaves its loop the wait never ends: \<open>None\<close>.
\<close>

definition main_results :: "nat \<Rightarrow> (nat \<Rightarrow> cycle list) \<Rightarrow> nat list \<Rightarrow> Result list list option" where
  "main_results clients turns arrival =
     (if list_all (\<lambda>i. simulateClient (1000 + int i) (turns i) \<noteq> None) [0..<clients]
      then Some (map (\<lambda>i. the (simulateClient (1000 + int i) (turns i))) arrival)
      else None)"

definition main :: "nat \<Rightarrow> (nat \<Rightarrow> cycle list) \<Rightarrow> nat list \<Rightarrow> totals option" where
  "main clients turns arrival = map_option aggregate (main_results clients turns arrival)"

text \<open>The three classes of the aggregation, by the tests of its loop.\<close>

datatype result_class = RequestFailure | ReservationSuccess | ReservationRejected

definition classify :: "Result \<Rightarrow> result_class" where
  "classify r =
     (if Duration r = 0 then RequestFailure
      else if StatusCode r = 200 then ReservationSuccess
      else ReservationRejected)"

text \<open>The average of a class, as the code inside the comment of \<^verbatim>\<open>main\<close> computes it:
  \<^verbatim>\<open>if count > 0 { avg = total / time.Duration(count) }\<close>, on signed 64-bit values.\<close>

definition guarded_average :: "duration \<Rightarrow> 64 word \<Rightarrow> duration" where
  "guarded_average total_rtt count =
     (if 0 < sint count then word_of_int (sint total_rtt sdiv sint count) else 0)"

section \<open>The seats table\<close>

text \<open>
  The server keeps one table, created by \<^verbatim>\<open>initSeats\<close>:
  \<^verbatim>\<open>seats (seat_id INT PRIMARY KEY, status VARCHAR(20) NOT NULL DEFAULT 'available', user_id INT)\<close>.
  A row is its \<open>status\<close> and its nullable \<open>user_id\<close>; the table is an association list
  from \<open>seat_id\<close> to the row. The primary key makes the keys distinct (\<open>distinct_keys\<close>);
  the order of the list carries no meaning, every query of the source orders or selects by key.
\<close>

record row =
  status :: string
  user_id :: "int option"

type_synonym seats = "(int \<times> row) list"

definition distinct_keys :: "seats \<Rightarrow> bool" where
  "distinct_keys db = distinct (map fst db)"

text \<open>\<^verbatim>\<open>UPDATE seats SET status = 'reserved', user_id = ? WHERE seat_id = ?\<close>\<close>

definition update_reserved :: "seats \<Rightarrow> int \<Rightarrow> int \<Rightarrow> seats" where
  "update_reserved db uid sid =
     map (\<lambda>(k, rw). if k = sid then (k, rw\<lparr>status := ''reserved'', user_id := Some uid\<rparr>)
                     else (k, rw)) db"

text \<open>\<^verbatim>\<open>INSERT IGNORE INTO seats (seat_id) VALUES (?)\<close>: a new row takes the column
  defaults; an existing key is left alone.\<close>

definition insert_ignore :: "seats \<Rightarrow> int \<Rightarrow> seats" where
  "insert_ignore db i =
     (case map_of db i of
        None \<Rightarrow> db @ [(i, \<lparr>status = ''available'', user_id = None\<rparr>)]
      | Some rw \<Rightarrow> db)"

section \<open>HTTP requests and responses\<close>

record TicketRequest =
  UserID :: int
  SeatID :: int

text \<open>
  Of a request the handler reads the \<^verbatim>\<open>Content-Type\<close> header (\<^verbatim>\<open>Header.Get\<close> gives the
  empty string when the header is absent) and the result of
  \<^verbatim>\<open>json.NewDecoder(r.Body).Decode(&req)\<close>: an error, or the decoded \<open>TicketRequest\<close>.
  The decoder belongs to Go's library and is taken as given.
\<close>

record request =
  header_Content_Type :: string
  decoded :: "string + TicketRequest"

datatype json = JNull | JInts "int list" | JObject "(string \<times> string) list"

datatype body = Text string | Json json

record response =
  code :: nat
  content_type :: string
  body :: body

abbreviation StatusOK :: nat where "StatusOK \<equiv> 200"
abbreviation StatusBadRequest :: nat where "StatusBadRequest \<equiv> 400"
abbreviation StatusNotFound :: nat where "StatusNotFound \<equiv> 404"
abbreviation StatusConflict :: nat where "StatusConflict \<equiv> 409"
abbreviation StatusUnsupportedMediaType :: nat where "StatusUnsupportedMediaType \<equiv> 415"
abbreviation StatusInternalServerError :: nat where "StatusInternalServerError \<equiv> 500"

text \<open>\<^verbatim>\<open>strings.HasPrefix(s, prefix)\<close>\<close>

definition HasPrefix :: "string \<Rightarrow> string \<Rightarrow> bool" where
  "HasPrefix s p = (length p \<le> length s \<and> take (length p) s = p)"

text \<open>\<^verbatim>\<open>http.Error(w, msg, code)\<close> writes the message and a newline as plain text.\<close>

definition http_Error :: "string \<Rightarrow> nat \<Rightarrow> response" where
  "http_Error msg c =
     \<lparr>code = c, content_type = ''text/plain; charset=utf-8'', body = Text (msg @ [CHR 0x0A])\<rparr>"

text \<open>The success reply: the header is set, the status is the implicit 200 of the first
  write, the body is the encoded map \<^verbatim>\<open>{"message": "Reservation successful"}\<close>.\<close>

definition reservation_successful :: response where
  "reservation_successful =
     \<lparr>code = StatusOK, content_type = ''application/json'',
      body = Json (JObject [(''message'', ''Reservation successful'')])\<rparr>"

section \<open>The store as the handler sees it\<close>

text \<open>
  Every call on \<^verbatim>\<open>db\<close> or \<^verbatim>\<open>tx\<close> returns an error value that the handler branches on.
  The database is not part of the repository, so whether a call fails is given from
  outside: \<open>store_env\<close> holds, for each of the four calls of \<^verbatim>\<open>reserveHandler\<close>, the error
  it returns if it is reached (\<open>None\<close>: it succeeds). \<^verbatim>\<open>sql.ErrNoRows\<close> is not in the
  environment: it is what the query returns when the table has no row for the key.
  A failed \<^verbatim>\<open>Commit\<close> is taken to commit nothing.
\<close>

record store_env =
  begin_err :: "string option"
  select_err :: "string option"
  update_err :: "string option"
  commit_err :: "string option"

definition no_failure :: "store_env \<Rightarrow> bool" where
  "no_failure env =
     (begin_err env = None \<and> select_err env = None \<and> update_err env = None \<and> commit_err env = None)"

datatype sql_error = ErrNoRows | ErrOther string

text \<open>\<^verbatim>\<open>tx.QueryRow(`SELECT status FROM seats WHERE seat_id = ? FOR UPDATE`, id).Scan(&status)\<close>\<close>

definition QueryRow_status :: "store_env \<Rightarrow> seats \<Rightarrow> int \<Rightarrow> sql_error + string" where
  "QueryRow_status env db sid =
     (case select_err env of
        Some e \<Rightarrow> Inl (ErrOther e)
      | None \<Rightarrow> (case map_of db sid of None \<Rightarrow> Inl ErrNoRows | Some rw \<Rightarrow> Inr (status rw)))"

text \<open>The calls a handler makes on the store, in order. \<^verbatim>\<open>defer tx.Rollback()\<close> runs
  when the handler returns, after a successful \<^verbatim>\<open>Begin\<close>; after \<^verbatim>\<open>Commit\<close> it has no effect.\<close>

datatype db_call = Begin | SelectForUpdate int | Update int int | Commit | Rollback

text \<open>What one run of a handler does: the response written, the table afterwards, the
  store calls made and the lines logged.\<close>

record 'l outcome =
  resp :: response
  seats_after :: seats
  calls :: "db_call list"
  logged :: "'l list"

section \<open>\<^verbatim>\<open>ticketing-be/main.go\<close>: \<^verbatim>\<open>reserveHandler\<close>\<close>

definition reserveHandler :: "store_env \<Rightarrow> request \<Rightarrow> seats \<Rightarrow> string outcome" where
  "reserveHandler env r db =
     (if \<not> HasPrefix (header_Content_Type r) ''application/json'' then
        \<lparr>resp = http_Error ''Content-Type must be application/json'' StatusUnsupportedMediaType,
         seats_after = db, calls = [], logged = []\<rparr>
      else case decoded r of
        Inl e \<Rightarrow>
          \<lparr>resp = http_Error ''Invalid JSON'' StatusBadRequest,
           seats_after = db, calls = [], logged = []\<rparr>
      | Inr req \<Rightarrow>
        (case begin_err env of
           Some e \<Rightarrow>
             \<lparr>resp = http_Error ''internal server error'' StatusInternalServerError,
              seats_after = db, calls = [Begin], logged = [''DB begin error: '' @ e]\<rparr>
         | None \<Rightarrow>
           (case QueryRow_status env db (SeatID req) of
              Inl ErrNoRows \<Rightarrow>
                \<lparr>resp = http_Error ''Seat not found'' StatusNotFound,
                 seats_after = db,
                 calls = [Begin, SelectForUpdate (SeatID req), Rollback], logged = []\<rparr>
            | Inl (ErrOther e) \<Rightarrow>
                \<lparr>resp = http_Error ''internal server error'' StatusInternalServerError,
                 seats_after = db,
                 calls = [Begin, SelectForUpdate (SeatID req), Rollback],
                 logged = [''DB select error: '' @ e]\<rparr>
            | Inr st \<Rightarrow>
              if st \<noteq> ''available'' then
                \<lparr>resp = http_Error ''Seat already reserved'' StatusConflict,
                 seats_after = db,
                 calls = [Begin, SelectForUpdate (SeatID req), Rollback], logged = []\<rparr>
              else
                (case update_err env of
                   Some e \<Rightarrow>
                     \<lparr>resp = http_Error ''internal server error'' StatusInternalServerError,
                      seats_after = db,
                      calls = [Begin, SelectForUpdate (SeatID req),
                               Update (UserID req) (SeatID req), Rollback],
                      logged = [''DB update error: '' @ e]\<rparr>
                 | None \<Rightarrow>
                   (case commit_err env of
                      Some e \<Rightarrow>
                        \<lparr>resp = http_Error ''internal server error'' StatusInternalServerError,
                         seats_after = db,
                         calls = [Begin, SelectForUpdate (SeatID req),
                                  Update (UserID req) (SeatID req), Commit, Rollback],
                         logged = [''DB commit error: '' @ e]\<rparr>
                    | None \<Rightarrow>
                        \<lparr>resp = reservation_successful,
                         seats_after = update_reserved db (UserID req) (SeatID req),
                         calls = [Begin, SelectForUpdate (SeatID req),
                                  Update (UserID req) (SeatID req), Commit, Rollback],
                         logged = []\<rparr>)))))"

section \<open>The logging variant of the server\<close>

text \<open>\<^verbatim>\<open>LogEntry\<close> without its timestamp, which is the wall clock at the time of the call.
  The fields are the arguments of \<^verbatim>\<open>logJSON\<close>.\<close>

record LogEntry =
  Level :: string
  Action :: string
  log_UserID :: int
  log_SeatID :: int
  Status :: string
  Error :: "string option"

definition logJSON :: "string \<Rightarrow> string \<Rightarrow> int \<Rightarrow> int \<Rightarrow> string \<Rightarrow> string option \<Rightarrow> LogEntry" where
  "logJSON level action userID seatID st err =
     \<lparr>Level = level, Action = action, log_UserID = userID, log_SeatID = seatID,
      Status = st, Error = err\<rparr>"

definition reserveHandler_logging :: "store_env \<Rightarrow> request \<Rightarrow> seats \<Rightarrow> LogEntry outcome" where
  "reserveHandler_logging env r db =
     (if \<not> HasPrefix (header_Content_Type r) ''application/json'' then
        \<lparr>resp = http_Error ''Content-Type must be application/json'' StatusUnsupportedMediaType,
         seats_after = db, calls = [],
         logged = [logJSON ''WARN'' ''reserve'' 0 0 ''bad_content_type'' None]\<rparr>
      else case decoded r of
        Inl e \<Rightarrow>
          \<lparr>resp = http_Error ''Invalid JSON'' StatusBadRequest,
           seats_after = db, calls = [],
           logged = [logJSON ''ERROR'' ''reserve'' 0 0 ''invalid_json'' (Some e)]\<rparr>
      | Inr req \<Rightarrow>
        (case begin_err env of
           Some e \<Rightarrow>
             \<lparr>resp = http_Error ''internal server error'' StatusInternalServerError,
              seats_after = db, calls = [Begin],
              logged = [logJSON ''ERROR'' ''reserve'' (UserID req) (SeatID req)
                          ''tx_begin_fail'' (Some e)]\<rparr>
         | None \<Rightarrow>
           (case QueryRow_status env db (SeatID req) of
              Inl ErrNoRows \<Rightarrow>
                \<lparr>resp = http_Error ''Seat not found'' StatusNotFound,
                 seats_after = db,
                 calls = [Begin, SelectForUpdate (SeatID req), Rollback],
                 logged = [logJSON ''WARN'' ''reserve'' (UserID req) (SeatID req)
                             ''seat_not_found'' None]\<rparr>
            | Inl (ErrOther e) \<Rightarrow>
                \<lparr>resp = http_Error ''internal server error'' StatusInternalServerError,
                 seats_after = db,
                 calls = [Begin, SelectForUpdate (SeatID req), Rollback],
                 logged = [logJSON ''ERROR'' ''reserve'' (UserID req) (SeatID req)
                             ''select_fail'' (Some e)]\<rparr>
            | Inr st \<Rightarrow>
              if st \<noteq> ''available'' then
                \<lparr>resp = http_Error ''Seat already reserved'' StatusConflict,
                 seats_after = db,
                 calls = [Begin, SelectForUpdate (SeatID req), Rollback],
                 logged = [logJSON ''INFO'' ''reserve'' (UserID req) (SeatID req)
                             ''seat_conflict'' None]\<rparr>
              else
                (case update_err env of
                   Some e \<Rightarrow>
                     \<lparr>resp = http_Error ''internal server error'' StatusInternalServerError,
                      seats_after = db,
                      calls = [Begin, SelectForUpdate (SeatID req),
                               Update (UserID req) (SeatID req), Rollback],
                      logged = [logJSON ''ERROR'' ''reserve'' (UserID req) (SeatID req)
                                  ''update_fail'' (Some e)]\<rparr>
                 | None \<Rightarrow>
                   (case commit_err env of
                      Some e \<Rightarrow>
                        \<lparr>resp = http_Error ''internal server error'' StatusInternalServerError,
                         seats_after = db,
                         calls = [Begin, SelectForUpdate (SeatID req),
                                  Update (UserID req) (SeatID req), Commit, Rollback],
                         logged = [logJSON ''ERROR'' ''reserve'' (UserID req) (SeatID req)
                                     ''commit_fail'' (Some e)]\<rparr>
                    | None \<Rightarrow>
                        \<lparr>resp = reservation_successful,
                         seats_after = update_reserved db (UserID req) (SeatID req),
                         calls = [Begin, SelectForUpdate (SeatID req),
                                  Update (UserID req) (SeatID req), Commit, Rollback],
                         logged = [logJSON ''INFO'' ''reserve'' (UserID req) (SeatID req)
                                     ''success'' None]\<rparr>)))))"

section \<open>\<^verbatim>\<open>ticketing-be/main.go\<close>: \<^verbatim>\<open>initSeats\<close>\<close>

text \<open>
  The environment of \<^verbatim>\<open>initSeats\<close>: the error of \<^verbatim>\<open>CREATE TABLE IF NOT EXISTS\<close> and, for
  each \<open>i\<close>, the error of the insert of seat \<open>i\<close>. A failed insert is logged and the loop
  goes on; the log lines are left out of the model.
\<close>

record init_env =
  create_err :: "string option"
  insert_err :: "int \<Rightarrow> string option"

text \<open>\<^verbatim>\<open>for i := 1; i <= total; i++ { db.Exec(`INSERT IGNORE ...`, i) }\<close>, entered at \<open>i\<close>.\<close>

function insert_loop :: "init_env \<Rightarrow> int \<Rightarrow> int \<Rightarrow> seats \<Rightarrow> seats" where
  "insert_loop env i tot db =
     (if i \<le> tot then
        insert_loop env (i + 1) tot
          (case insert_err env i of None \<Rightarrow> insert_ignore db i | Some e \<Rightarrow> db)
      else db)"
  by pat_completeness auto
termination
  by (relation "measure (\<lambda>(env, i, tot, db). nat (tot + 1 - i))") auto

declare insert_loop.simps [simp del]

text \<open>
  Go's \<^verbatim>\<open>int\<close> has 64 bits. The counter \<open>i\<close> is the only integer the server does
  arithmetic on; \<^verbatim>\<open>i++\<close> wraps only when the total \<open>tot\<close> is the largest \<^verbatim>\<open>int\<close>, and then
  \<^verbatim>\<open>i <= total\<close> never fails and the loop never exits: the result is \<open>None\<close>. Otherwise
  the result is the returned error and the table.
\<close>

definition initSeats :: "int \<Rightarrow> init_env \<Rightarrow> seats \<Rightarrow> (string option \<times> seats) option" where
  "initSeats tot env db =
     (case create_err env of
        Some e \<Rightarrow> Some (Some e, db)
      | None \<Rightarrow>
          if tot \<ge> 2 ^ 63 - 1 then None
          else Some (None, insert_loop env 1 tot db))"

section \<open>\<^verbatim>\<open>ticketing-be/main.go\<close>: \<^verbatim>\<open>availableSeatsHandler\<close>\<close>

record query_env =
  query_err :: "string option"
  scan_err :: "int \<Rightarrow> bool"

text \<open>\<^verbatim>\<open>SELECT seat_id FROM seats WHERE status = 'available' ORDER BY seat_id LIMIT 100\<close>\<close>

definition select_available :: "seats \<Rightarrow> int list" where
  "select_available db =
     take 100 (sort (map fst (filter (\<lambda>(k, rw). status rw = ''available'') db)))"

text \<open>A Go slice is \<^verbatim>\<open>nil\<close> (\<open>None\<close>) until the first \<^verbatim>\<open>append\<close>. The encoder writes a
  \<^verbatim>\<open>nil\<close> slice as \<^verbatim>\<open>null\<close> and any other slice as an array.\<close>

type_synonym slice = "int list option"

definition append_slice :: "slice \<Rightarrow> int \<Rightarrow> slice" where
  "append_slice s x = (case s of None \<Rightarrow> Some [x] | Some xs \<Rightarrow> Some (xs @ [x]))"

definition Encode_slice :: "slice \<Rightarrow> json" where
  "Encode_slice s = (case s of None \<Rightarrow> JNull | Some xs \<Rightarrow> JInts xs)"

text \<open>\<^verbatim>\<open>for rows.Next() { if err := rows.Scan(&id); err == nil { seats = append(seats, id) } }\<close>
  over the rows of the result set.\<close>

fun rows_loop :: "(int \<Rightarrow> bool) \<Rightarrow> int list \<Rightarrow> slice \<Rightarrow> slice" where
  "rows_loop scan_fails [] seats = seats"
| "rows_loop scan_fails (i # rows) seats =
     rows_loop scan_fails rows (if scan_fails i then seats else append_slice seats i)"

definition availableSeatsHandler :: "query_env \<Rightarrow> seats \<Rightarrow> response" where
  "availableSeatsHandler env db =
     (case query_err env of
        Some e \<Rightarrow> http_Error ''internal server error'' StatusInternalServerError
      | None \<Rightarrow>
          \<lparr>code = StatusOK, content_type = ''application/json'',
           body = Json (Encode_slice (rows_loop (scan_err env) (select_available db) None))\<rparr>)"

definition query_ok :: query_env where
  "query_ok = \<lparr>query_err = None, scan_err = (\<lambda>i. False)\<rparr>"

section \<open>Sequences of operations on the table\<close>





text \<open>The seats that are available: the keys whose row has the status \<^verbatim>\<open>available\<close>.\<close>

definition available_ids :: "seats \<Rightarrow> int set" where
  "available_ids db = {k. \<exists>rw. map_of db k = Some rw \<and> status rw = ''available''}"

section \<open>Handlers running at the same time\<close>

text \<open>
  The Go server runs every request in a goroutine of its own, so several runs of
  \<^verbatim>\<open>reserveHandler\<close> overlap. They share nothing but the database, and each touches it
  only through its calls on \<^verbatim>\<open>db\<close> and \<^verbatim>\<open>tx\<close>. A run is therefore cut at these calls: each
  step below is one call on the store together with the local code up to the next call.

  What the database does is not in the repository; it is modelled as MySQL's row locks
  behave. \<^verbatim>\<open>SELECT ... FOR UPDATE\<close> reads the last committed row and takes the exclusive lock
  of that row; while another transaction holds the lock, the statement waits. The lock is
  held until the transaction ends, with \<^verbatim>\<open>Commit\<close> or with the deferred \<^verbatim>\<open>Rollback\<close>. The
  \<^verbatim>\<open>UPDATE\<close> of a transaction becomes part of the table when it commits, and a rollback or
  a failed commit leaves the table as it was.
\<close>

text \<open>Where a run of the handler stands: before \<^verbatim>\<open>db.Begin\<close>; before the locking read,
  with the decoded \<^verbatim>\<open>req\<close>; after it, with \<^verbatim>\<open>req\<close> and the \<^verbatim>\<open>status\<close> read; after the
  \<^verbatim>\<open>UPDATE\<close>; returned, with the response written.\<close>

datatype pc =
  Start
| Begun TicketRequest
| Locked TicketRequest string
| Updated TicketRequest
| Done response

record handler =
  h_env :: store_env
  h_request :: request
  h_pc :: pc

text \<open>The server: the committed table, for each row the handler that holds its lock,
  and the handlers, each with the store behaviour it will meet.\<close>

record server =
  seats_table :: seats
  row_lock :: "int \<Rightarrow> nat option"
  handlers :: "handler list"

definition set_pc :: "nat \<Rightarrow> pc \<Rightarrow> server \<Rightarrow> server" where
  "set_pc p c s = s\<lparr>handlers := (handlers s)[p := (handlers s ! p)\<lparr>h_pc := c\<rparr>]\<rparr>"

text \<open>The end of the transaction of handler \<open>p\<close> frees the locks it holds.\<close>

definition release :: "nat \<Rightarrow> server \<Rightarrow> server" where
  "release p s = s\<lparr>row_lock := (\<lambda>k. if row_lock s k = Some p then None else row_lock s k)\<rparr>"

text \<open>One step of handler \<open>p\<close>. A handler that waits for a lock, or has returned, leaves
  the state as it is.\<close>

definition step :: "nat \<Rightarrow> server \<Rightarrow> server" where
  "step p s =
     (if p < length (handlers s) then
        (case h_pc (handlers s ! p) of
           Start \<Rightarrow>
             if \<not> HasPrefix (header_Content_Type (h_request (handlers s ! p))) ''application/json''
             then set_pc p (Done (http_Error ''Content-Type must be application/json''
                                    StatusUnsupportedMediaType)) s
             else (case decoded (h_request (handlers s ! p)) of
                     Inl e \<Rightarrow> set_pc p (Done (http_Error ''Invalid JSON'' StatusBadRequest)) s
                   | Inr req \<Rightarrow>
                       (case begin_err (h_env (handlers s ! p)) of
                          Some e \<Rightarrow>
                            set_pc p (Done (http_Error ''internal server error''
                                              StatusInternalServerError)) s
                        | None \<Rightarrow> set_pc p (Begun req) s))
         | Begun req \<Rightarrow>
             (case row_lock s (SeatID req) of
                Some q \<Rightarrow> s
              | None \<Rightarrow>
                  (case QueryRow_status (h_env (handlers s ! p)) (seats_table s) (SeatID req) of
                     Inl ErrNoRows \<Rightarrow>
                       set_pc p (Done (http_Error ''Seat not found'' StatusNotFound)) (release p s)
                   | Inl (ErrOther e) \<Rightarrow>
                       set_pc p (Done (http_Error ''internal server error''
                                         StatusInternalServerError)) (release p s)
                   | Inr st \<Rightarrow>
                       set_pc p (Locked req st)
                         (s\<lparr>row_lock := (row_lock s)(SeatID req := Some p)\<rparr>)))
         | Locked req st \<Rightarrow>
             if st \<noteq> ''available''
             then set_pc p (Done (http_Error ''Seat already reserved'' StatusConflict))
                    (release p s)
             else (case update_err (h_env (handlers s ! p)) of
                     Some e \<Rightarrow>
                       set_pc p (Done (http_Error ''internal server error''
                                         StatusInternalServerError)) (release p s)
                   | None \<Rightarrow> set_pc p (Updated req) s)
         | Updated req \<Rightarrow>
             (case commit_err (h_env (handlers s ! p)) of
                Some e \<Rightarrow>
                  set_pc p (Done (http_Error ''internal server error''
                                    StatusInternalServerError)) (release p s)
              | None \<Rightarrow>
                  set_pc p (Done reservation_successful)
                    (release p
                       (s\<lparr>seats_table :=
                            update_reserved (seats_table s) (UserID req) (SeatID req)\<rparr>)))
         | Done r \<Rightarrow> s)
      else s)"

text \<open>A schedule names the handler that takes the next step, step after step.\<close>

fun run :: "nat list \<Rightarrow> server \<Rightarrow> server" where
  "run [] s = s"
| "run (p # schedule) s = run schedule (step p s)"

text \<open>The server when the requests have arrived and no handler has done anything.\<close>

definition arrived :: "seats \<Rightarrow> (store_env \<times> request) list \<Rightarrow> server" where
  "arrived db reqs =
     \<lparr>seats_table = db, row_lock = (\<lambda>k. None),
      handlers = map (\<lambda>(env, r). \<lparr>h_env = env, h_request = r, h_pc = Start\<rparr>) reqs\<rparr>"




text \<open>A request that is accepted and asks for seat \<open>sid\<close> on behalf of user \<open>uid\<close>.\<close>

definition reserves :: "request \<Rightarrow> int \<Rightarrow> int \<Rightarrow> bool" where
  "reserves r uid sid =
     (HasPrefix (header_Content_Type r) ''application/json'' \<and>
      decoded r = Inr \<lparr>UserID = uid, SeatID = sid\<rparr>)"

subsection \<open>What holds in every state of a race for one seat\<close>

fun holding :: "pc \<Rightarrow> bool" where
  "holding (Locked req st) = True"
| "holding (Updated req) = True"
| "holding c = False"

fun req_of :: "pc \<Rightarrow> TicketRequest option" where
  "req_of (Begun req) = Some req"
| "req_of (Locked req st) = Some req"
| "req_of (Updated req) = Some req"
| "req_of c = None"

text \<open>Every handler serves an accepted request for the seat, and carries that request.\<close>

definition inv_requests :: "int \<Rightarrow> server \<Rightarrow> bool" where
  "inv_requests sid s =
     (\<forall>q < length (handlers s).
        (\<exists>uid. reserves (h_request (handlers s ! q)) uid sid) \<and>
        (\<forall>req. req_of (h_pc (handlers s ! q)) = Some req \<longrightarrow>
                decoded (h_request (handlers s ! q)) = Inr req))"

text \<open>The lock of the seat is held by exactly the handler between its locking read and
  the end of its transaction; no other lock is held.\<close>

definition inv_lock :: "int \<Rightarrow> server \<Rightarrow> bool" where
  "inv_lock sid s =
     ((\<forall>k. k \<noteq> sid \<longrightarrow> row_lock s k = None) \<and>
      (\<forall>q. (row_lock s sid = Some q) =
            (q < length (handlers s) \<and> holding (h_pc (handlers s ! q)))))"

text \<open>Every response is one of three, and a 500 comes from a store failure.\<close>

definition inv_responses :: "server \<Rightarrow> bool" where
  "inv_responses s =
     (\<forall>q < length (handlers s). \<forall>r. h_pc (handlers s ! q) = Done r \<longrightarrow>
        (r = reservation_successful \<or>
         r = http_Error ''Seat already reserved'' StatusConflict \<or>
         r = http_Error ''internal server error'' StatusInternalServerError) \<and>
        (code r = 500 \<longrightarrow> \<not> no_failure (h_env (handlers s ! q))))"

text \<open>Before any commit: the row is as at the start, nobody has got an answer other
  than 500, and a status read under the lock is \<^verbatim>\<open>available\<close>.\<close>

definition still_available :: "int \<Rightarrow> row \<Rightarrow> server \<Rightarrow> bool" where
  "still_available sid rw s =
     (map_of (seats_table s) sid = Some rw \<and>
      (\<forall>q < length (handlers s). \<forall>r. h_pc (handlers s ! q) = Done r \<longrightarrow> code r = 500) \<and>
      (\<forall>q < length (handlers s). \<forall>req st.
          h_pc (handlers s ! q) = Locked req st \<longrightarrow> st = ''available''))"

text \<open>After the commit of handler \<open>w\<close>: the row is reserved for the user of \<open>w\<close>, who got
  the confirmation; nobody else got one; no update is pending, and a status read under
  the lock is \<^verbatim>\<open>reserved\<close>.\<close>

definition reserved_by :: "int \<Rightarrow> row \<Rightarrow> nat \<Rightarrow> server \<Rightarrow> bool" where
  "reserved_by sid rw w s =
     (w < length (handlers s) \<and>
      (\<exists>uid. reserves (h_request (handlers s ! w)) uid sid \<and>
             map_of (seats_table s) sid =
               Some (rw\<lparr>status := ''reserved'', user_id := Some uid\<rparr>)) \<and>
      h_pc (handlers s ! w) = Done reservation_successful \<and>
      (\<forall>q < length (handlers s). q \<noteq> w \<longrightarrow>
          (\<forall>r. h_pc (handlers s ! q) = Done r \<longrightarrow> code r = 409 \<or> code r = 500)) \<and>
      (\<forall>q < length (handlers s). \<forall>req st.
          h_pc (handlers s ! q) = Locked req st \<longrightarrow> st = ''reserved'') \<and>
      (\<forall>q < length (handlers s). \<forall>req. h_pc (handlers s ! q) \<noteq> Updated req))"

definition race_inv :: "int \<Rightarrow> row \<Rightarrow> server \<Rightarrow> bool" where
  "race_inv sid rw s =
     (inv_requests sid s \<and> inv_lock sid s \<and> inv_responses s \<and>
      (still_available sid rw s \<or> (\<exists>w. reserved_by sid rw w s)))"

subsection \<open>The steps a handler has left\<close>



section \<open>Environments and requests of the examples\<close>

definition init_ok :: init_env where
  "init_ok = \<lparr>create_err = None, insert_err = (\<lambda>i. None)\<rparr>"

definition env_ok :: store_env where
  "env_ok = \<lparr>begin_err = None, select_err = None, update_err = None, commit_err = None\<rparr>"

definition json_request :: "int \<Rightarrow> int \<Rightarrow> request" where
  "json_request uid sid =
     \<lparr>header_Content_Type = ''application/json'', decoded = Inr \<lparr>UserID = uid, SeatID = sid\<rparr>\<rparr>"

definition turns_example :: "cycle list" where
  "turns_example =
     [FetchError ''connection refused'',
      Fetched [7] (\<lambda>i req. \<lparr>reply = PostError ''timeout'', elapsed = 5000000000\<rparr>),
      Fetched [7, 8] (\<lambda>i req. if i = 0 then \<lparr>reply = PostResponse 409, elapsed = 2000\<rparr>
                                else \<lparr>reply = PostResponse 200, elapsed = 1000\<rparr>),
      Fetched [] (\<lambda>i req. \<lparr>reply = PostError ''closed'', elapsed = 0\<rparr>)]"


section \<open>The two \<^verbatim>\<open>reserveHandler\<close>s\<close>

text \<open>
  C10. The handler of \<^verbatim>\<open>ticketing-be/main.go\<close> and the logging variant write the same
  response (status code, content type and body), leave the same table and make the same
  calls on the store, for every request, table and store behaviour; they differ in what
  they log.
\<close>

theorem reserveHandler_logging_equiv:
  "resp (reserveHandler_logging env r db) = resp (reserveHandler env r db) \<and>
   seats_after (reserveHandler_logging env r db) = seats_after (reserveHandler env r db) \<and>
   calls (reserveHandler_logging env r db) = calls (reserveHandler env r db)"
  by (simp add: reserveHandler_def reserveHandler_logging_def
      split: sum.split option.split sql_error.split)

theorem reserveHandler_logging_equiv_witness:
  "resp (reserveHandler_logging env_ok (json_request 1 42)
           [(42, \<lparr>status = ''available'', user_id = None\<rparr>)]) =
   resp (reserveHandler env_ok (json_request 1 42)
           [(42, \<lparr>status = ''available'', user_id = None\<rparr>)]) \<and>
   code (resp (reserveHandler_logging env_ok (json_request 1 42)
           [(42, \<lparr>status = ''available'', user_id = None\<rparr>)])) = 200 \<and>
   logged (reserveHandler_logging env_ok (json_request 1 42)
           [(42, \<lparr>status = ''available'', user_id = None\<rparr>)]) =
     [logJSON ''INFO'' ''reserve'' 1 42 ''success'' None] \<and>
   logged (reserveHandler env_ok (json_request 1 42)
           [(42, \<lparr>status = ''available'', user_id = None\<rparr>)]) = []"
  using reserveHandler_logging_equiv
    [of env_ok "json_request 1 42" "[(42, \<lparr>status = ''available'', user_id = None\<rparr>)]"]
  by (simp add: reserveHandler_def reserveHandler_logging_def env_ok_def json_request_def
      HasPrefix_def QueryRow_status_def reservation_successful_def)

section \<open>The status codes of \<^verbatim>\<open>reserveHandler\<close>\<close>



section \<open>Requests rejected before the store is touched\<close>



section \<open>Reserved rows stay as they are\<close>

lemma map_fst_update_reserved: "map fst (update_reserved db uid sid) = map fst db"
  by (induction db) (auto simp: update_reserved_def)

lemma map_of_update_reserved:
  "map_of (update_reserved db uid sid) k =
     (if k = sid then map_option (\<lambda>rw. rw\<lparr>status := ''reserved'', user_id := Some uid\<rparr>) (map_of db k)
      else map_of db k)"
  by (induction db) (auto simp: update_reserved_def)














section \<open>Running the initialisation again\<close>

lemma map_of_insert_ignore:
  "map_of (insert_ignore db i) k =
     (case map_of db k of
        Some rw \<Rightarrow> Some rw
      | None \<Rightarrow> if k = i then Some \<lparr>status = ''available'', user_id = None\<rparr> else None)"
  by (auto simp: insert_ignore_def map_add_def split: option.split)

lemma map_of_insert_loop:
  "map_of (insert_loop env i tot db) k =
     (case map_of db k of
        Some rw \<Rightarrow> Some rw
      | None \<Rightarrow>
          if i \<le> k \<and> k \<le> tot \<and> insert_err env k = None
          then Some \<lparr>status = ''available'', user_id = None\<rparr> else None)"
proof (induction env i tot db rule: insert_loop.induct)
  case (1 env i tot db)
  show ?case
  proof (cases "i \<le> tot")
    case True
    then have "map_of (insert_loop env i tot db) k =
        map_of (insert_loop env (i + 1) tot
          (case insert_err env i of None \<Rightarrow> insert_ignore db i | Some e \<Rightarrow> db)) k"
      by (subst insert_loop.simps) simp
    also note "1.IH" [OF True]
    finally show ?thesis
      using True by (auto simp: map_of_insert_ignore split: option.split)
  next
    case False
    then show ?thesis
      by (subst insert_loop.simps) (auto split: option.split)
  qed
qed

lemma insert_ignore_present:
  "i \<in> fst ` set db \<Longrightarrow> insert_ignore db i = db"
  by (auto simp: insert_ignore_def map_of_eq_None_iff split: option.split)

lemma insert_loop_present:
  "{i..tot} \<subseteq> fst ` set db \<Longrightarrow> insert_loop env i tot db = db"
proof (induction env i tot db rule: insert_loop.induct)
  case (1 env i tot db)
  show ?case
  proof (cases "i \<le> tot")
    case True
    with "1.prems" have i: "i \<in> fst ` set db" by auto
    then have same: "(case insert_err env i of None \<Rightarrow> insert_ignore db i | Some e \<Rightarrow> db) = db"
      by (simp add: insert_ignore_present split: option.split)
    from "1.prems" have "{i + 1..tot} \<subseteq> fst ` set db" by auto
    with "1.IH" [OF True] same True show ?thesis
      by (subst insert_loop.simps) simp
  next
    case False
    then show ?thesis by (subst insert_loop.simps) simp
  qed
qed

lemma distinct_keys_insert_ignore:
  "distinct_keys db \<Longrightarrow> distinct_keys (insert_ignore db i)"
  by (auto simp: insert_ignore_def distinct_keys_def map_of_eq_None_iff split: option.split)

lemma distinct_keys_insert_loop:
  "distinct_keys db \<Longrightarrow> distinct_keys (insert_loop env i tot db)"
proof (induction env i tot db rule: insert_loop.induct)
  case (1 env i tot db)
  show ?case
  proof (cases "i \<le> tot")
    case True
    have "distinct_keys (case insert_err env i of None \<Rightarrow> insert_ignore db i | Some e \<Rightarrow> db)"
      using "1.prems" by (simp add: distinct_keys_insert_ignore split: option.split)
    with "1.IH" [OF True] True show ?thesis
      by (subst insert_loop.simps) simp
  next
    case False
    with "1.prems" show ?thesis by (subst insert_loop.simps) simp
  qed
qed

lemma keys_insert_loop:
  assumes "\<forall>j. insert_err env j = None"
  shows "fst ` set (insert_loop env i tot db) = fst ` set db \<union> {i..tot}"
proof -
  have "dom (map_of (insert_loop env i tot db)) = dom (map_of db) \<union> {i..tot}"
    using assms by (auto simp: dom_def map_of_insert_loop split: option.splits if_splits)
  then show ?thesis by (simp add: dom_map_of_conv_image_fst)
qed

text \<open>
  C9. \<^verbatim>\<open>initSeats(total)\<close> returns (for every total but the largest \<^verbatim>\<open>int\<close>) and leaves
  every row that exists as it is, whatever its status and owner, and whatever the store
  does; it duplicates no key; run over a table whose keys are 1..total it changes
  nothing at all; and when no statement fails, the keys afterwards are the old keys and
  1..total.
\<close>

theorem initSeats_idempotent:
  assumes "tot < 2 ^ 63 - 1"
  shows "\<exists>db'. initSeats tot env db = Some (create_err env, db') \<and>
           (\<forall>k rw. map_of db k = Some rw \<longrightarrow> map_of db' k = Some rw) \<and>
           (distinct_keys db \<longrightarrow> distinct_keys db') \<and>
           (fst ` set db = {1..tot} \<longrightarrow> db' = db) \<and>
           (create_err env = None \<and> (\<forall>i. insert_err env i = None) \<longrightarrow>
              fst ` set db' = fst ` set db \<union> {1..tot})"
proof (cases "create_err env")
  case None
  with assms have "initSeats tot env db = Some (create_err env, insert_loop env 1 tot db)"
    by (simp add: initSeats_def)
  moreover have "\<forall>k rw. map_of db k = Some rw \<longrightarrow> map_of (insert_loop env 1 tot db) k = Some rw"
    by (simp add: map_of_insert_loop)
  moreover have "distinct_keys db \<longrightarrow> distinct_keys (insert_loop env 1 tot db)"
    by (simp add: distinct_keys_insert_loop)
  moreover have "fst ` set db = {1..tot} \<longrightarrow> insert_loop env 1 tot db = db"
    by (simp add: insert_loop_present)
  moreover have "create_err env = None \<and> (\<forall>i. insert_err env i = None) \<longrightarrow>
      fst ` set (insert_loop env 1 tot db) = fst ` set db \<union> {1..tot}"
    by (simp add: keys_insert_loop)
  ultimately show ?thesis by blast
next
  case (Some e)
  then have "initSeats tot env db = Some (create_err env, db)"
    by (simp add: initSeats_def)
  with Some show ?thesis by simp
qed

theorem initSeats_idempotent_witness:
  "(3::int) < 2 ^ 63 - 1 \<and>
   initSeats 3 init_ok [] =
     Some (None, [(1, \<lparr>status = ''available'', user_id = None\<rparr>),
                  (2, \<lparr>status = ''available'', user_id = None\<rparr>),
                  (3, \<lparr>status = ''available'', user_id = None\<rparr>)]) \<and>
   seats_after (reserveHandler env_ok (json_request 7 2)
                  [(1, \<lparr>status = ''available'', user_id = None\<rparr>),
                   (2, \<lparr>status = ''available'', user_id = None\<rparr>),
                   (3, \<lparr>status = ''available'', user_id = None\<rparr>)]) =
     [(1, \<lparr>status = ''available'', user_id = None\<rparr>),
      (2, \<lparr>status = ''reserved'', user_id = Some 7\<rparr>),
      (3, \<lparr>status = ''available'', user_id = None\<rparr>)] \<and>
   fst ` set [(1::int, \<lparr>status = ''available'', user_id = None\<rparr>),
              (2, \<lparr>status = ''reserved'', user_id = Some 7\<rparr>),
              (3, \<lparr>status = ''available'', user_id = None\<rparr>)] = {1..3} \<and>
   initSeats 3 init_ok
     [(1, \<lparr>status = ''available'', user_id = None\<rparr>),
      (2, \<lparr>status = ''reserved'', user_id = Some 7\<rparr>),
      (3, \<lparr>status = ''available'', user_id = None\<rparr>)] =
     Some (None, [(1, \<lparr>status = ''available'', user_id = None\<rparr>),
                  (2, \<lparr>status = ''reserved'', user_id = Some 7\<rparr>),
                  (3, \<lparr>status = ''available'', user_id = None\<rparr>)])"
proof -
  have h: "(3::int) < 2 ^ 63 - 1" by simp
  have keys: "fst ` set [(1::int, \<lparr>status = ''available'', user_id = None\<rparr>),
              (2, \<lparr>status = ''reserved'', user_id = Some 7\<rparr>),
              (3, \<lparr>status = ''available'', user_id = None\<rparr>)] = {1..3}"
    by (simp add: atLeastAtMost_def atLeast_def atMost_def) (auto)
  have first: "initSeats 3 init_ok [] =
     Some (None, [(1, \<lparr>status = ''available'', user_id = None\<rparr>),
                  (2, \<lparr>status = ''available'', user_id = None\<rparr>),
                  (3, \<lparr>status = ''available'', user_id = None\<rparr>)])"
    by (simp add: initSeats_def init_ok_def insert_loop.simps insert_ignore_def)
  have res: "seats_after (reserveHandler env_ok (json_request 7 2)
                  [(1, \<lparr>status = ''available'', user_id = None\<rparr>),
                   (2, \<lparr>status = ''available'', user_id = None\<rparr>),
                   (3, \<lparr>status = ''available'', user_id = None\<rparr>)]) =
     [(1, \<lparr>status = ''available'', user_id = None\<rparr>),
      (2, \<lparr>status = ''reserved'', user_id = Some 7\<rparr>),
      (3, \<lparr>status = ''available'', user_id = None\<rparr>)]"
    by (simp add: reserveHandler_def env_ok_def json_request_def HasPrefix_def QueryRow_status_def
        update_reserved_def)
  from initSeats_idempotent [OF h, of init_ok
      "[(1, \<lparr>status = ''available'', user_id = None\<rparr>),
        (2, \<lparr>status = ''reserved'', user_id = Some 7\<rparr>),
        (3, \<lparr>status = ''available'', user_id = None\<rparr>)]"] keys
  have "initSeats 3 init_ok
     [(1, \<lparr>status = ''available'', user_id = None\<rparr>),
      (2, \<lparr>status = ''reserved'', user_id = Some 7\<rparr>),
      (3, \<lparr>status = ''available'', user_id = None\<rparr>)] =
     Some (None, [(1, \<lparr>status = ''available'', user_id = None\<rparr>),
                  (2, \<lparr>status = ''reserved'', user_id = Some 7\<rparr>),
                  (3, \<lparr>status = ''available'', user_id = None\<rparr>)])"
    by (auto simp: init_ok_def)
  with h keys first res show ?thesis by blast
qed

section \<open>The listing of available seats\<close>

lemma sort_distinct: "distinct (xs :: int list) \<Longrightarrow> sort xs = sorted_list_of_set (set xs)"
  by (simp add: sorted_list_of_set_sort_remdups distinct_remdups_id)

lemma available_keys:
  assumes "distinct_keys db"
  shows "set (map fst (filter (\<lambda>(k, rw). status rw = ''available'') db)) = available_ids db"
  using assms
  by (auto simp: available_ids_def distinct_keys_def image_iff)

lemma select_available_set:
  assumes "distinct_keys db"
  shows "select_available db = take 100 (sorted_list_of_set (available_ids db))"
proof -
  have "distinct (map fst (filter (\<lambda>(k, rw). status rw = ''available'') db))"
    using assms by (simp add: distinct_keys_def distinct_map_filter)
  then show ?thesis
    by (simp add: select_available_def sort_distinct available_keys [OF assms, simplified])
qed

lemma rows_loop_filter:
  "rows_loop f xs s =
     (case filter (\<lambda>i. \<not> f i) xs of
        [] \<Rightarrow> s
      | y # ys \<Rightarrow> Some ((case s of None \<Rightarrow> [] | Some zs \<Rightarrow> zs) @ y # ys))"
  by (induction xs arbitrary: s) (auto simp: append_slice_def split: list.splits option.splits)

lemma fresh_pool_10:
  "insert_loop init_ok 1 10 [] =
     map (\<lambda>i. (i, \<lparr>status = ''available'', user_id = None\<rparr>)) [1, 2, 3, 4, 5, 6, 7, 8, 9, 10]"
  by (simp add: insert_loop.simps init_ok_def insert_ignore_def)

text \<open>
  C6, as the code has it. When the query fails the answer is 500. Otherwise the answer
  is 200 and its body is built from the ids of the available seats in ascending order,
  cut to the first 100, without the ids whose scan fails: the JSON array of these ids
  when there is at least one, and the JSON value \<^verbatim>\<open>null\<close> when there is none. A pool of
  10 seats fresh from \<^verbatim>\<open>initSeats\<close> lists as 1..10, and as 1..4, 6..10 after seat 5 is
  reserved.
\<close>

theorem availableSeatsHandler_listing:
  assumes "distinct_keys db"
  shows "availableSeatsHandler env db =
     (case query_err env of
        Some e \<Rightarrow> http_Error ''internal server error'' 500
      | None \<Rightarrow>
          \<lparr>code = 200, content_type = ''application/json'',
           body = Json (case filter (\<lambda>i. \<not> scan_err env i)
                               (take 100 (sorted_list_of_set (available_ids db))) of
                          [] \<Rightarrow> JNull
                        | i # ids \<Rightarrow> JInts (i # ids))\<rparr>) \<and>
   initSeats 10 init_ok [] = Some (None, insert_loop init_ok 1 10 []) \<and>
   body (availableSeatsHandler query_ok (insert_loop init_ok 1 10 [])) =
     Json (JInts [1, 2, 3, 4, 5, 6, 7, 8, 9, 10]) \<and>
   body (availableSeatsHandler query_ok
           (seats_after (reserveHandler env_ok (json_request uid 5)
                           (insert_loop init_ok 1 10 [])))) =
     Json (JInts [1, 2, 3, 4, 6, 7, 8, 9, 10])"
proof (intro conjI)
  show "availableSeatsHandler env db =
     (case query_err env of
        Some e \<Rightarrow> http_Error ''internal server error'' 500
      | None \<Rightarrow>
          \<lparr>code = 200, content_type = ''application/json'',
           body = Json (case filter (\<lambda>i. \<not> scan_err env i)
                               (take 100 (sorted_list_of_set (available_ids db))) of
                          [] \<Rightarrow> JNull
                        | i # ids \<Rightarrow> JInts (i # ids))\<rparr>)"
    by (simp add: availableSeatsHandler_def rows_loop_filter select_available_set [OF assms]
        Encode_slice_def split: option.split list.split)
  show "initSeats 10 init_ok [] = Some (None, insert_loop init_ok 1 10 [])"
    by (simp add: initSeats_def init_ok_def)
  show "body (availableSeatsHandler query_ok (insert_loop init_ok 1 10 [])) =
     Json (JInts [1, 2, 3, 4, 5, 6, 7, 8, 9, 10])"
    by (simp add: fresh_pool_10 availableSeatsHandler_def query_ok_def select_available_def
        append_slice_def Encode_slice_def)
  show "body (availableSeatsHandler query_ok
           (seats_after (reserveHandler env_ok (json_request uid 5)
                           (insert_loop init_ok 1 10 [])))) =
     Json (JInts [1, 2, 3, 4, 6, 7, 8, 9, 10])"
    by (simp add: fresh_pool_10 availableSeatsHandler_def query_ok_def select_available_def
        append_slice_def Encode_slice_def reserveHandler_def env_ok_def json_request_def
        HasPrefix_def QueryRow_status_def update_reserved_def)
qed

theorem availableSeatsHandler_listing_witness:
  "distinct_keys [(1, \<lparr>status = ''available'', user_id = None\<rparr>),
                  (2, \<lparr>status = ''reserved'', user_id = Some 7\<rparr>),
                  (3, \<lparr>status = ''available'', user_id = None\<rparr>)] \<and>
   availableSeatsHandler query_ok
     [(1, \<lparr>status = ''available'', user_id = None\<rparr>),
      (2, \<lparr>status = ''reserved'', user_id = Some 7\<rparr>),
      (3, \<lparr>status = ''available'', user_id = None\<rparr>)] =
     \<lparr>code = 200, content_type = ''application/json'', body = Json (JInts [1, 3])\<rparr> \<and>
   take 100 (sorted_list_of_set (available_ids
     [(1, \<lparr>status = ''available'', user_id = None\<rparr>),
      (2, \<lparr>status = ''reserved'', user_id = Some 7\<rparr>),
      (3, \<lparr>status = ''available'', user_id = None\<rparr>)])) = [1, 3]"
proof -
  have h: "distinct_keys [(1, \<lparr>status = ''available'', user_id = None\<rparr>),
                  (2, \<lparr>status = ''reserved'', user_id = Some 7\<rparr>),
                  (3, \<lparr>status = ''available'', user_id = None\<rparr>)]"
    by (simp add: distinct_keys_def)
  have v: "availableSeatsHandler query_ok
     [(1, \<lparr>status = ''available'', user_id = None\<rparr>),
      (2, \<lparr>status = ''reserved'', user_id = Some 7\<rparr>),
      (3, \<lparr>status = ''available'', user_id = None\<rparr>)] =
     \<lparr>code = 200, content_type = ''application/json'', body = Json (JInts [1, 3])\<rparr>"
    by (simp add: availableSeatsHandler_def query_ok_def select_available_def
        append_slice_def Encode_slice_def)
  have s: "take 100 (sorted_list_of_set (available_ids
     [(1, \<lparr>status = ''available'', user_id = None\<rparr>),
      (2, \<lparr>status = ''reserved'', user_id = Some 7\<rparr>),
      (3, \<lparr>status = ''available'', user_id = None\<rparr>)])) = [1, 3]"
    using availableSeatsHandler_listing [OF h, of query_ok] v
    by (simp add: query_ok_def split: list.splits)
  from h v s show ?thesis by blast
qed

text \<open>
  The claim C6 as it is written says the body is always a JSON array. After the only
  seat of a one-seat pool is reserved, no seat is available, the slice is never appended
  to, and the body is \<^verbatim>\<open>null\<close>, which is no array.
\<close>

theorem availableSeatsHandler_null_counterexample:
  "\<not> (\<exists>ids. body (availableSeatsHandler query_ok
           (seats_after (reserveHandler env_ok (json_request 7 1) (insert_loop init_ok 1 1 [])))) =
         Json (JInts ids))"
  by (simp add: insert_loop.simps init_ok_def insert_ignore_def availableSeatsHandler_def
      query_ok_def select_available_def append_slice_def Encode_slice_def reserveHandler_def
      env_ok_def json_request_def HasPrefix_def QueryRow_status_def update_reserved_def)

section \<open>Facts about the load generator\<close>

lemma attempt_loop_attempts:
  "attempt_loop userID seats net i cur =
     cur @ filter recorded (attempts_of_cycle userID seats net i)"
proof (induction userID seats net i cur rule: attempt_loop.induct)
  case (1 userID seats net i cur)
  show ?case
  proof (cases "i < length seats \<and> i < 3")
    case False
    then have "attempt_loop userID seats net i cur = cur"
      by (subst attempt_loop.simps) auto
    moreover from False have "attempts_of_cycle userID seats net i = []"
      by (subst attempts_of_cycle.simps) auto
    ultimately show ?thesis by simp
  next
    case True
    let ?r = "tryReserve (net i) \<lparr>ReserveRequest.UserID = userID, SeatID = seats ! i\<rparr>"
    show ?thesis
    proof (cases "recorded ?r")
      case False
      then have d: "Err ?r \<noteq> None \<or> Duration ?r = 0" by (simp add: recorded_def)
      have "attempt_loop userID seats net i cur = attempt_loop userID seats net (i + 1) cur"
        using True d by (subst attempt_loop.simps) simp
      also have "\<dots> = cur @ filter recorded (attempts_of_cycle userID seats net (i + 1))"
        using "1.IH"(1) [OF True d] .
      also have "filter recorded (attempts_of_cycle userID seats net (i + 1)) =
                 filter recorded (attempts_of_cycle userID seats net i)"
        using True False by (subst (2) attempts_of_cycle.simps) simp
      finally show ?thesis .
    next
      case rec: True
      then have d: "\<not> (Err ?r \<noteq> None \<or> Duration ?r = 0)" by (simp add: recorded_def)
      show ?thesis
      proof (cases "StatusCode ?r = 200")
        case ok: True
        have "attempt_loop userID seats net i cur = cur @ [?r]"
          using True d ok by (subst attempt_loop.simps) simp
        moreover have "attempts_of_cycle userID seats net i = [?r]"
          using True rec ok by (subst attempts_of_cycle.simps) simp
        ultimately show ?thesis using rec by simp
      next
        case no: False
        have "attempt_loop userID seats net i cur =
              attempt_loop userID seats net (i + 1) (cur @ [?r])"
          using True d no by (subst attempt_loop.simps) simp
        also have "\<dots> = (cur @ [?r]) @ filter recorded (attempts_of_cycle userID seats net (i + 1))"
          using "1.IH"(2) [OF True d no] .
        also have "attempts_of_cycle userID seats net i =
                   ?r # attempts_of_cycle userID seats net (i + 1)"
          using True no by (subst attempts_of_cycle.simps) simp
        then have "(cur @ [?r]) @ filter recorded (attempts_of_cycle userID seats net (i + 1)) =
                   cur @ filter recorded (attempts_of_cycle userID seats net i)"
          using rec by simp
        finally show ?thesis .
      qed
    qed
  qed
qed

lemma client_loop_attempts:
  "client_loop userID cycles cur = Some rs \<Longrightarrow>
     rs = cur @ filter recorded (attempts_made userID cycles)"
proof (induction userID cycles cur rule: client_loop.induct)
  case (1 userID cur)
  then show ?case by simp
next
  case (2 userID e cycles cur)
  then show ?case by simp
next
  case (3 userID seats net cycles cur)
  show ?case
  proof (cases "length seats = 0")
    case True
    with "3.prems" show ?thesis by simp
  next
    case False
    with "3.prems" have "client_loop userID cycles (attempt_loop userID seats net 0 cur) = Some rs"
      by simp
    from "3.IH" [OF False this] False show ?thesis
      by (simp add: attempt_loop_attempts)
  qed
qed


lemma attempts_of_cycle_Err:
  "a \<in> set (attempts_of_cycle userID seats net i) \<Longrightarrow> Err a \<noteq> Some (NoRequestSucceeded u)"
proof (induction userID seats net i rule: attempts_of_cycle.induct)
  case (1 userID seats net i)
  show ?case
  proof (cases "i < length seats \<and> i < 3")
    case False
    then have "attempts_of_cycle userID seats net i = []"
      by (subst attempts_of_cycle.simps) auto
    with "1.prems" show ?thesis by simp
  next
    case True
    let ?r = "tryReserve (net i) \<lparr>ReserveRequest.UserID = userID, SeatID = seats ! i\<rparr>"
    have r: "Err ?r \<noteq> Some (NoRequestSucceeded u)"
      by (simp add: tryReserve_def split: post_reply.split)
    show ?thesis
    proof (cases "recorded ?r \<and> StatusCode ?r = 200")
      case stop: True
      with True "1.prems" have "a = ?r"
        by (subst (asm) attempts_of_cycle.simps) simp
      with r show ?thesis by simp
    next
      case go: False
      with True "1.prems" have "a = ?r \<or> a \<in> set (attempts_of_cycle userID seats net (i + 1))"
        by (subst (asm) attempts_of_cycle.simps) auto
      with r "1.IH" [OF True go] show ?thesis by auto
    qed
  qed
qed

lemma attempts_made_Err:
  "a \<in> set (attempts_made userID cycles) \<Longrightarrow> Err a \<noteq> Some (NoRequestSucceeded u)"
  by (induction userID cycles rule: attempts_made.induct)
     (auto simp: attempts_of_cycle_Err split: if_splits)

lemma count_result_fields:
  "allResults (count_result t r) = allResults t @ [r]"
  "requestFailCount (count_result t r) =
     requestFailCount t + (if classify r = RequestFailure then 1 else 0)"
  "successCount (count_result t r) =
     successCount t + (if classify r = ReservationSuccess then 1 else 0)"
  "failCount (count_result t r) =
     failCount t + (if classify r = ReservationRejected then 1 else 0)"
  "successTotalRTT (count_result t r) =
     successTotalRTT t + (if classify r = ReservationSuccess then Duration r else 0)"
  "failTotalRTT (count_result t r) =
     failTotalRTT t + (if classify r = ReservationRejected then Duration r else 0)"
  by (simp_all add: count_result_def classify_def)

lemma foldl_count_result:
  "allResults (foldl count_result t rs) = allResults t @ rs \<and>
   requestFailCount (foldl count_result t rs) =
     requestFailCount t + of_nat (length (filter (\<lambda>r. classify r = RequestFailure) rs)) \<and>
   successCount (foldl count_result t rs) =
     successCount t + of_nat (length (filter (\<lambda>r. classify r = ReservationSuccess) rs)) \<and>
   failCount (foldl count_result t rs) =
     failCount t + of_nat (length (filter (\<lambda>r. classify r = ReservationRejected) rs)) \<and>
   successTotalRTT (foldl count_result t rs) =
     successTotalRTT t + sum_list (map Duration (filter (\<lambda>r. classify r = ReservationSuccess) rs)) \<and>
   failTotalRTT (foldl count_result t rs) =
     failTotalRTT t + sum_list (map Duration (filter (\<lambda>r. classify r = ReservationRejected) rs))"
proof (induction rs arbitrary: t)
  case Nil
  then show ?case by simp
next
  case (Cons r rs)
  from Cons.IH [of "count_result t r"] show ?case
    by (simp add: count_result_fields)
qed

lemma foldl_foldl_concat:
  "foldl (\<lambda>t rr. foldl f t rr) t rrs = foldl f t (concat rrs)"
  by (induction rrs arbitrary: t) simp_all

lemma aggregate_concat: "aggregate results = foldl count_result no_totals (concat results)"
  by (simp add: aggregate_def foldl_foldl_concat)

lemma class_partition:
  "length (filter (\<lambda>r. classify r = RequestFailure) rs) +
   length (filter (\<lambda>r. classify r = ReservationSuccess) rs) +
   length (filter (\<lambda>r. classify r = ReservationRejected) rs) = length rs"
proof (induction rs)
  case Nil
  then show ?case by simp
next
  case (Cons r rs)
  then show ?case by (cases "classify r") simp_all
qed

section \<open>What the aggregation computes\<close>

text \<open>
  C4, as the code has it. The aggregation keeps every result it reads and puts it into
  exactly one of three classes: request failure when its duration is 0, success when
  its duration is not 0 and its status code is 200, rejected otherwise. For each class
  it computes the count, and for the success and the rejected class the sum of the
  durations. The three counts add up to the number of results. It computes no average
  and divides nowhere.
\<close>

theorem aggregate_classes:
  "allResults (aggregate results) = concat results \<and>
   requestFailCount (aggregate results) =
     of_nat (length (filter (\<lambda>r. classify r = RequestFailure) (concat results))) \<and>
   successCount (aggregate results) =
     of_nat (length (filter (\<lambda>r. classify r = ReservationSuccess) (concat results))) \<and>
   failCount (aggregate results) =
     of_nat (length (filter (\<lambda>r. classify r = ReservationRejected) (concat results))) \<and>
   successTotalRTT (aggregate results) =
     sum_list (map Duration (filter (\<lambda>r. classify r = ReservationSuccess) (concat results))) \<and>
   failTotalRTT (aggregate results) =
     sum_list (map Duration (filter (\<lambda>r. classify r = ReservationRejected) (concat results))) \<and>
   requestFailCount (aggregate results) + successCount (aggregate results) +
     failCount (aggregate results) = of_nat (length (concat results))"
proof -
  note f = foldl_count_result [of no_totals "concat results"]
  have p: "of_nat (length (concat results)) =
       (of_nat (length (filter (\<lambda>r. classify r = RequestFailure) (concat results))) :: 64 word) +
        of_nat (length (filter (\<lambda>r. classify r = ReservationSuccess) (concat results))) +
        of_nat (length (filter (\<lambda>r. classify r = ReservationRejected) (concat results)))"
    unfolding of_nat_add [symmetric] class_partition ..
  show ?thesis
    unfolding aggregate_concat using f p by (simp add: no_totals_def)
qed

theorem aggregate_classes_witness:
  "aggregate [[\<lparr>StatusCode = 409, Duration = 30, Err = None\<rparr>,
               \<lparr>StatusCode = 200, Duration = 10, Err = None\<rparr>],
              [no_request_succeeded 1001]] =
     \<lparr>successCount = 1, successTotalRTT = 10, failCount = 1, failTotalRTT = 30,
      requestFailCount = 1,
      allResults = [\<lparr>StatusCode = 409, Duration = 30, Err = None\<rparr>,
                    \<lparr>StatusCode = 200, Duration = 10, Err = None\<rparr>,
                    no_request_succeeded 1001]\<rparr> \<and>
   requestFailCount (aggregate [[\<lparr>StatusCode = 409, Duration = 30, Err = None\<rparr>,
               \<lparr>StatusCode = 200, Duration = 10, Err = None\<rparr>],
              [no_request_succeeded 1001]]) +
   successCount (aggregate [[\<lparr>StatusCode = 409, Duration = 30, Err = None\<rparr>,
               \<lparr>StatusCode = 200, Duration = 10, Err = None\<rparr>],
              [no_request_succeeded 1001]]) +
   failCount (aggregate [[\<lparr>StatusCode = 409, Duration = 30, Err = None\<rparr>,
               \<lparr>StatusCode = 200, Duration = 10, Err = None\<rparr>],
              [no_request_succeeded 1001]]) = 3"
  using aggregate_classes [of "[[\<lparr>StatusCode = 409, Duration = 30, Err = None\<rparr>,
               \<lparr>StatusCode = 200, Duration = 10, Err = None\<rparr>],
              [no_request_succeeded 1001]]"]
  by (simp add: aggregate_def count_result_def no_totals_def no_request_succeeded_def)

text \<open>
  The claim C4 as it is written says the aggregation computes the average latency of each
  class. For two successes of 10 and 30 nanoseconds that average is 20; the aggregation
  ends with the counts 2, 0, 0 and the sums 40 and 0, and 20 is none of them.
\<close>

theorem aggregate_no_average_counterexample:
  "guarded_average
     (successTotalRTT (aggregate [[\<lparr>StatusCode = 200, Duration = 10, Err = None\<rparr>,
                                   \<lparr>StatusCode = 200, Duration = 30, Err = None\<rparr>]]))
     (successCount (aggregate [[\<lparr>StatusCode = 200, Duration = 10, Err = None\<rparr>,
                                \<lparr>StatusCode = 200, Duration = 30, Err = None\<rparr>]])) = 20 \<and>
   aggregate [[\<lparr>StatusCode = 200, Duration = 10, Err = None\<rparr>,
               \<lparr>StatusCode = 200, Duration = 30, Err = None\<rparr>]] =
     \<lparr>successCount = 2, successTotalRTT = 40, failCount = 0, failTotalRTT = 0,
      requestFailCount = 0,
      allResults = [\<lparr>StatusCode = 200, Duration = 10, Err = None\<rparr>,
                    \<lparr>StatusCode = 200, Duration = 30, Err = None\<rparr>]\<rparr> \<and>
   20 \<notin> {successCount (aggregate [[\<lparr>StatusCode = 200, Duration = 10, Err = None\<rparr>,
                                       \<lparr>StatusCode = 200, Duration = 30, Err = None\<rparr>]]),
          successTotalRTT (aggregate [[\<lparr>StatusCode = 200, Duration = 10, Err = None\<rparr>,
                                       \<lparr>StatusCode = 200, Duration = 30, Err = None\<rparr>]]),
          failCount (aggregate [[\<lparr>StatusCode = 200, Duration = 10, Err = None\<rparr>,
                                 \<lparr>StatusCode = 200, Duration = 30, Err = None\<rparr>]]),
          failTotalRTT (aggregate [[\<lparr>StatusCode = 200, Duration = 10, Err = None\<rparr>,
                                    \<lparr>StatusCode = 200, Duration = 30, Err = None\<rparr>]]),
          requestFailCount (aggregate [[\<lparr>StatusCode = 200, Duration = 10, Err = None\<rparr>,
                                        \<lparr>StatusCode = 200, Duration = 30, Err = None\<rparr>]])}"
  by (simp add: aggregate_def count_result_def no_totals_def guarded_average_def
      signed_divide_int_def)

section \<open>Attempts without a response\<close>

lemma simulateClient_results:
  assumes "simulateClient userID cycles = Some rs"
  shows "rs = (if filter recorded (attempts_made userID cycles) = []
               then [no_request_succeeded userID]
               else filter recorded (attempts_made userID cycles))"
proof -
  from assms obtain cur where c: "client_loop userID cycles [] = Some cur"
    and r: "rs = (if length cur = 0 then cur @ [no_request_succeeded userID] else cur)"
    by (auto simp: simulateClient_def split: option.splits)
  from client_loop_attempts [OF c] have "cur = filter recorded (attempts_made userID cycles)"
    by simp
  with r show ?thesis by simp
qed

lemma requestFailCount_recorded:
  "requestFailCount (aggregate [filter recorded as]) = 0"
proof -
  have "filter (\<lambda>r. classify r = RequestFailure) (filter recorded as) = []"
    by (auto simp: filter_empty_conv recorded_def classify_def)
  then show ?thesis
    using foldl_count_result [of no_totals "filter recorded as"]
    by (simp add: aggregate_concat no_totals_def)
qed

text \<open>
  C5, as the code has it. An attempt whose request failed (or whose measured duration
  is 0) is not recorded: it is in no list a simulator sends, so it is in no counter of
  the aggregation, the request failures included. What a simulator sends is the list of
  its recorded attempts, or, when there are none, the one record
  \<open>no_request_succeeded\<close>; that record alone is what the request failure counter counts.
\<close>

theorem transport_failures_dropped:
  assumes "simulateClient userID cycles = Some rs"
  shows "(\<forall>a \<in> set (attempts_made userID cycles). \<not> recorded a \<longrightarrow> a \<notin> set rs) \<and>
         rs = (if filter recorded (attempts_made userID cycles) = []
               then [no_request_succeeded userID]
               else filter recorded (attempts_made userID cycles)) \<and>
         allResults (aggregate [rs]) = rs \<and>
         requestFailCount (aggregate [rs]) =
           (if filter recorded (attempts_made userID cycles) = [] then 1 else 0)"
proof (intro conjI ballI impI)
  note rs = simulateClient_results [OF assms]
  show "rs = (if filter recorded (attempts_made userID cycles) = []
               then [no_request_succeeded userID]
               else filter recorded (attempts_made userID cycles))"
    by (fact rs)
  show "allResults (aggregate [rs]) = rs"
    using foldl_count_result [of no_totals rs] by (simp add: aggregate_concat no_totals_def)
  show "requestFailCount (aggregate [rs]) =
           (if filter recorded (attempts_made userID cycles) = [] then 1 else 0)"
  proof (cases "filter recorded (attempts_made userID cycles) = []")
    case True
    with rs have "rs = [no_request_succeeded userID]" by simp
    then have "requestFailCount (aggregate [rs]) = 1"
      by (simp add: aggregate_def count_result_def no_totals_def no_request_succeeded_def)
    with True show ?thesis by simp
  next
    case False
    with rs have "rs = filter recorded (attempts_made userID cycles)" by simp
    with False show ?thesis by (simp add: requestFailCount_recorded)
  qed
  fix a
  assume a: "a \<in> set (attempts_made userID cycles)" and n: "\<not> recorded a"
  show "a \<notin> set rs"
  proof (cases "filter recorded (attempts_made userID cycles) = []")
    case True
    with rs have "rs = [no_request_succeeded userID]" by simp
    moreover from attempts_made_Err [OF a, of userID] have "a \<noteq> no_request_succeeded userID"
      by (auto simp: no_request_succeeded_def)
    ultimately show ?thesis by simp
  next
    case False
    with rs have "rs = filter recorded (attempts_made userID cycles)" by simp
    with n show ?thesis by simp
  qed
qed

theorem transport_failures_dropped_witness:
  "simulateClient 1000 turns_example =
     Some [\<lparr>StatusCode = 409, Duration = 2000, Err = None\<rparr>,
           \<lparr>StatusCode = 200, Duration = 1000, Err = None\<rparr>] \<and>
   attempts_made 1000 turns_example =
     [\<lparr>StatusCode = 0, Duration = 5000000000, Err = Some (TransportError ''timeout'')\<rparr>,
      \<lparr>StatusCode = 409, Duration = 2000, Err = None\<rparr>,
      \<lparr>StatusCode = 200, Duration = 1000, Err = None\<rparr>] \<and>
   \<not> recorded \<lparr>StatusCode = 0, Duration = 5000000000, Err = Some (TransportError ''timeout'')\<rparr> \<and>
   requestFailCount (aggregate [[\<lparr>StatusCode = 409, Duration = 2000, Err = None\<rparr>,
                                 \<lparr>StatusCode = 200, Duration = 1000, Err = None\<rparr>]]) = 0"
proof -
  have run: "simulateClient 1000 turns_example =
     Some [\<lparr>StatusCode = 409, Duration = 2000, Err = None\<rparr>,
           \<lparr>StatusCode = 200, Duration = 1000, Err = None\<rparr>]"
    by (simp add: turns_example_def simulateClient_def attempt_loop.simps tryReserve_def)
  have made: "attempts_made 1000 turns_example =
     [\<lparr>StatusCode = 0, Duration = 5000000000, Err = Some (TransportError ''timeout'')\<rparr>,
      \<lparr>StatusCode = 409, Duration = 2000, Err = None\<rparr>,
      \<lparr>StatusCode = 200, Duration = 1000, Err = None\<rparr>]"
    by (simp add: turns_example_def attempts_of_cycle.simps tryReserve_def recorded_def)
  have dropped:
    "\<not> recorded \<lparr>StatusCode = 0, Duration = 5000000000, Err = Some (TransportError ''timeout'')\<rparr>"
    by (simp add: recorded_def)
  have "requestFailCount (aggregate [[\<lparr>StatusCode = 409, Duration = 2000, Err = None\<rparr>,
                                 \<lparr>StatusCode = 200, Duration = 1000, Err = None\<rparr>]]) = 0"
    using transport_failures_dropped [OF run] made by (simp add: recorded_def)
  with run made dropped show ?thesis by blast
qed

text \<open>
  The claim C5 as it is written says an attempt without a response is still counted
  separately. One simulator: its first attempt times out, its next attempt succeeds, then
  the list of seats is empty. Two attempts were made; \<^verbatim>\<open>main\<close> ends with one result, one
  success and no request failure.
\<close>

theorem transport_failure_uncounted_counterexample:
  "attempts_made 1000
     [Fetched [7] (\<lambda>i req. \<lparr>reply = PostError ''timeout'', elapsed = 5000000000\<rparr>),
      Fetched [7] (\<lambda>i req. \<lparr>reply = PostResponse 200, elapsed = 1000\<rparr>),
      Fetched [] (\<lambda>i req. \<lparr>reply = PostError ''closed'', elapsed = 0\<rparr>)] =
     [\<lparr>StatusCode = 0, Duration = 5000000000, Err = Some (TransportError ''timeout'')\<rparr>,
      \<lparr>StatusCode = 200, Duration = 1000, Err = None\<rparr>] \<and>
   main 1
     (\<lambda>i. [Fetched [7] (\<lambda>i req. \<lparr>reply = PostError ''timeout'', elapsed = 5000000000\<rparr>),
            Fetched [7] (\<lambda>i req. \<lparr>reply = PostResponse 200, elapsed = 1000\<rparr>),
            Fetched [] (\<lambda>i req. \<lparr>reply = PostError ''closed'', elapsed = 0\<rparr>)])
     [0] =
     Some \<lparr>successCount = 1, successTotalRTT = 1000, failCount = 0, failTotalRTT = 0,
           requestFailCount = 0,
           allResults = [\<lparr>StatusCode = 200, Duration = 1000, Err = None\<rparr>]\<rparr>"
  by (simp add: main_def main_results_def simulateClient_def attempt_loop.simps
      attempts_of_cycle.simps tryReserve_def recorded_def aggregate_def count_result_def
      no_totals_def)

section \<open>Every simulator contributes\<close>







section \<open>The race for one seat\<close>

lemma handlers_set_pc [simp]:
  "handlers (set_pc p c s) = (handlers s)[p := (handlers s ! p)\<lparr>h_pc := c\<rparr>]"
  by (simp add: set_pc_def)

lemma row_lock_set_pc [simp]: "row_lock (set_pc p c s) = row_lock s"
  by (simp add: set_pc_def)

lemma seats_table_set_pc [simp]: "seats_table (set_pc p c s) = seats_table s"
  by (simp add: set_pc_def)

lemma handlers_release [simp]: "handlers (release p s) = handlers s"
  by (simp add: release_def)

lemma seats_table_release [simp]: "seats_table (release p s) = seats_table s"
  by (simp add: release_def)

lemma row_lock_release:
  "row_lock (release p s) k = (if row_lock s k = Some p then None else row_lock s k)"
  by (simp add: release_def)

lemma pc_update [simp]:
  "q < length hs \<Longrightarrow>
     h_pc (hs[p := (hs ! p)\<lparr>h_pc := c\<rparr>] ! q) = (if q = p then c else h_pc (hs ! q))"
  by (cases "q = p") simp_all

lemma request_update [simp]:
  "q < length hs \<Longrightarrow> h_request (hs[p := (hs ! p)\<lparr>h_pc := c\<rparr>] ! q) = h_request (hs ! q)"
  by (cases "q = p") simp_all

lemma env_update [simp]:
  "q < length hs \<Longrightarrow> h_env (hs[p := (hs ! p)\<lparr>h_pc := c\<rparr>] ! q) = h_env (hs ! q)"
  by (cases "q = p") simp_all

text \<open>Under the lock invariant, the end of a transaction frees the seat's lock when the
  handler holds it, and changes nothing otherwise.\<close>

lemma release_holder:
  assumes "inv_lock sid s" "row_lock s sid = Some p"
  shows "row_lock (release p s) = (\<lambda>k. None)"
proof
  fix k
  show "row_lock (release p s) k = None"
    using assms by (cases "k = sid") (auto simp: row_lock_release inv_lock_def)
qed


lemma holder_unique:
  assumes "inv_lock sid s" "p < length (handlers s)" "holding (h_pc (handlers s ! p))"
    "q < length (handlers s)" "holding (h_pc (handlers s ! q))"
  shows "q = p"
proof -
  from assms have "row_lock s sid = Some p" "row_lock s sid = Some q"
    by (simp_all add: inv_lock_def)
  then show ?thesis by simp
qed

subsection \<open>A step that takes and frees no lock and writes nothing\<close>


lemma request_of_handler:
  assumes "inv_requests sid s" "p < length (handlers s)"
    "req_of (h_pc (handlers s ! p)) = Some req"
  shows "\<exists>uid. req = \<lparr>UserID = uid, SeatID = sid\<rparr> \<and>
               reserves (h_request (handlers s ! p)) uid sid"
proof -
  from assms obtain uid where u: "reserves (h_request (handlers s ! p)) uid sid"
    and d: "decoded (h_request (handlers s ! p)) = Inr req"
    by (auto simp: inv_requests_def)
  then have "req = \<lparr>UserID = uid, SeatID = sid\<rparr>" by (simp add: reserves_def)
  with u show ?thesis by blast
qed

subsection \<open>The locking read that gets the lock\<close>


subsection \<open>The update under the lock\<close>


subsection \<open>The end of a transaction that commits nothing\<close>


subsection \<open>The commit\<close>

lemma commit:
  assumes inv: "race_inv sid rw s"
    and p: "p < length (handlers s)"
    and old: "h_pc (handlers s ! p) = Updated req"
  shows "race_inv sid rw
           (set_pc p (Done reservation_successful)
              (release p (s\<lparr>seats_table :=
                             update_reserved (seats_table s) (UserID req) (SeatID req)\<rparr>)))"
proof -
  let ?s1 = "s\<lparr>seats_table := update_reserved (seats_table s) (UserID req) (SeatID req)\<rparr>"
  let ?s' = "set_pc p (Done reservation_successful) (release p ?s1)"
  from inv have rq: "inv_requests sid s" and lk: "inv_lock sid s" and rs: "inv_responses s"
    and ph: "still_available sid rw s \<or> (\<exists>w. reserved_by sid rw w s)"
    by (simp_all add: race_inv_def)
  from old have hold: "holding (h_pc (handlers s ! p))" by simp
  from lk p hold have mine: "row_lock s sid = Some p" by (simp add: inv_lock_def)
  have lk1: "inv_lock sid ?s1" using lk by (simp add: inv_lock_def)
  have mine1: "row_lock ?s1 sid = Some p" using mine by simp
  have others: "\<not> holding (h_pc (handlers s ! q))" if "q < length (handlers s)" "q \<noteq> p" for q
    using holder_unique [OF lk p hold that(1)] that(2) by blast
  from request_of_handler [OF rq p] old obtain uid
    where req: "req = \<lparr>UserID = uid, SeatID = sid\<rparr>"
      and u: "reserves (h_request (handlers s ! p)) uid sid"
    by auto
  have 1: "inv_requests sid ?s'"
    using rq by (simp add: inv_requests_def)
  have 2: "inv_lock sid ?s'"
    using others by (auto simp: inv_lock_def release_holder [OF lk1 mine1] split: if_splits)
  have 3: "inv_responses ?s'"
    using rs by (auto simp: inv_responses_def reservation_successful_def)
  have "\<not> reserved_by sid rw w s" for w
    using p old by (auto simp: reserved_by_def)
  with ph have a: "still_available sid rw s" by blast
  then have row: "map_of (seats_table s) sid = Some rw" by (simp add: still_available_def)
  have nl: "h_pc (handlers s ! q) \<noteq> Locked rq st" if "q < length (handlers s)" "q \<noteq> p" for q rq st
    using others [OF that] by auto
  have nu: "h_pc (handlers s ! q) \<noteq> Updated rq" if "q < length (handlers s)" "q \<noteq> p" for q rq
    using others [OF that] by auto
  have d5: "code r = 500" if "q < length (handlers s)" "h_pc (handlers s ! q) = Done r" for q r
    using a that by (simp add: still_available_def)
  have "reserved_by sid rw p ?s'"
    unfolding reserved_by_def
  proof (intro conjI)
    show "p < length (handlers ?s')" using p by simp
    show "\<exists>uid. reserves (h_request (handlers ?s' ! p)) uid sid \<and>
            map_of (seats_table ?s') sid = Some (rw\<lparr>status := ''reserved'', user_id := Some uid\<rparr>)"
      using u p row req by (auto simp: map_of_update_reserved)
    show "h_pc (handlers ?s' ! p) = Done reservation_successful" using p by simp
    show "\<forall>q<length (handlers ?s'). q \<noteq> p \<longrightarrow>
            (\<forall>r. h_pc (handlers ?s' ! q) = Done r \<longrightarrow> code r = 409 \<or> code r = 500)"
      using d5 by simp
    show "\<forall>q<length (handlers ?s'). \<forall>req st. h_pc (handlers ?s' ! q) = Locked req st \<longrightarrow> st = ''reserved''"
      using nl by simp
    show "\<forall>q<length (handlers ?s'). \<forall>req. h_pc (handlers ?s' ! q) \<noteq> Updated req"
      using nu by simp
  qed
  then have 4: "still_available sid rw ?s' \<or> (\<exists>w. reserved_by sid rw w ?s')" by blast
  from 1 2 3 4 show ?thesis by (simp add: race_inv_def)
qed

subsection \<open>Every step keeps the invariant\<close>
















subsection \<open>Every race can be run to its end\<close>

lemma step_length [simp]: "length (handlers (step p s)) = length (handlers s)"
  by (simp add: step_def split: pc.split sum.split option.split sql_error.split)




lemma run_length [simp]: "length (handlers (run schedule s)) = length (handlers s)"
  by (induction schedule arbitrary: s) simp_all







subsection \<open>One handler alone does what \<^verbatim>\<open>reserveHandler\<close> does\<close>

lemma solo:
  "h_pc (handlers (run [0, 0, 0, 0] (arrived db [(env, r)])) ! 0) =
     Done (resp (reserveHandler env r db)) \<and>
   seats_table (run [0, 0, 0, 0] (arrived db [(env, r)])) = seats_after (reserveHandler env r db) \<and>
   row_lock (run [0, 0, 0, 0] (arrived db [(env, r)])) k = None"
proof (cases "HasPrefix (header_Content_Type r) ''application/json''")
  case False
  then show ?thesis
    by (simp add: arrived_def step_def set_pc_def reserveHandler_def)
next
  case ct: True
  show ?thesis
  proof (cases "decoded r")
    case (Inl e)
    with ct show ?thesis
      by (simp add: arrived_def step_def set_pc_def reserveHandler_def)
  next
    case (Inr req)
    show ?thesis
    proof (cases "begin_err env")
      case (Some e)
      with ct Inr show ?thesis
        by (simp add: arrived_def step_def set_pc_def reserveHandler_def)
    next
      case b: None
      show ?thesis
      proof (cases "select_err env")
        case (Some e)
        with ct Inr b show ?thesis
          by (simp add: arrived_def step_def set_pc_def release_def reserveHandler_def
              QueryRow_status_def)
      next
        case sel: None
        show ?thesis
        proof (cases "map_of db (SeatID req)")
          case None
          with ct Inr b sel show ?thesis
            by (simp add: arrived_def step_def set_pc_def release_def reserveHandler_def
                QueryRow_status_def)
        next
          case (Some rw)
          show ?thesis
          proof (cases "status rw = ''available''")
            case False
            with ct Inr b sel Some show ?thesis
              by (simp add: arrived_def step_def set_pc_def release_def reserveHandler_def
                  QueryRow_status_def)
          next
            case av: True
            show ?thesis
            proof (cases "update_err env")
              case (Some e)
              with ct Inr b sel \<open>map_of db (SeatID req) = Some rw\<close> av show ?thesis
                by (simp add: arrived_def step_def set_pc_def release_def reserveHandler_def
                    QueryRow_status_def)
            next
              case up: None
              show ?thesis
              proof (cases "commit_err env")
                case (Some e)
                with ct Inr b sel \<open>map_of db (SeatID req) = Some rw\<close> av up show ?thesis
                  by (simp add: arrived_def step_def set_pc_def release_def reserveHandler_def
                      QueryRow_status_def)
              next
                case None
                with ct Inr b sel \<open>map_of db (SeatID req) = Some rw\<close> av up show ?thesis
                  by (simp add: arrived_def step_def set_pc_def release_def reserveHandler_def
                      QueryRow_status_def)
              qed
            qed
          qed
        qed
      qed
    qed
  qed
qed

subsection \<open>The outcome of the race\<close>









end
